theory Spec2Isabelle
  imports Complex_Main "HOL-Library.Multiset" "HOL-Library.Log_Nat"
begin

section \<open>Strings\<close>

text \<open>
  Python strings are modelled as \<^typ>\<open>string\<close>; a character stands for a code point
  below 256.  \<open>is_space\<close> lists the code points below 256 that \<^verbatim>\<open>str.strip()\<close> removes,
  \<open>lower\<close> is the simple lower-case mapping on that range, which is what the \<^verbatim>\<open>re\<close>
  module compares under \<^verbatim>\<open>IGNORECASE\<close>.
\<close>

definition newline :: char where
  "newline = CHR 0x0A"

definition hyphen :: char where
  "hyphen = CHR ''-''"

definition is_space :: "char \<Rightarrow> bool" where
  "is_space c = (of_char c \<in> {9, 10, 11, 12, 13, 28, 29, 30, 31, 32, 133, 160 :: nat})"

definition strip :: "string \<Rightarrow> string" where
  "strip s = rev (dropWhile is_space (rev (dropWhile is_space s)))"

definition lower :: "char \<Rightarrow> char" where
  "lower c = (let n = of_char c :: nat in
     if (65 \<le> n \<and> n \<le> 90) \<or> (192 \<le> n \<and> n \<le> 222 \<and> n \<noteq> 215)
     then char_of (n + 32) else c)"

section \<open>The two regular expressions of the program\<close>

text \<open>
  \<^verbatim>\<open>str.contains('INGRESO NO QUIR.', case=False, na=False)\<close> leaves \<^verbatim>\<open>regex\<close> at its
  default \<^verbatim>\<open>True\<close>: the argument is compiled as a regular expression with
  \<^verbatim>\<open>re.IGNORECASE\<close> and searched for.  Its atoms are literal characters and one final
  dot, which matches every character but a line feed.
\<close>

datatype re_atom = Lit char | Dot

fun atom_matches :: "re_atom \<Rightarrow> char \<Rightarrow> bool" where
  "atom_matches (Lit p) c = (lower c = lower p)"
| "atom_matches Dot c = (c \<noteq> newline)"

fun match_at :: "re_atom list \<Rightarrow> string \<Rightarrow> bool" where
  "match_at [] s = True"
| "match_at (a # as) [] = False"
| "match_at (a # as) (c # cs) = (atom_matches a c \<and> match_at as cs)"

fun re_search :: "re_atom list \<Rightarrow> string \<Rightarrow> bool" where
  "re_search p [] = match_at p []"
| "re_search p (c # cs) = (match_at p (c # cs) \<or> re_search p cs)"

definition category_pattern :: "re_atom list" where
  "category_pattern = map Lit ''INGRESO NO QUIR'' @ [Dot]"

definition contains_category :: "string \<Rightarrow> bool" where
  "contains_category product = re_search category_pattern product"

text \<open>
  The reading of the specification: the product contains the sixteen characters
  \<^verbatim>\<open>INGRESO NO QUIR.\<close> as a substring, letters compared without case.
\<close>

fun starts_with :: "string \<Rightarrow> string \<Rightarrow> bool" where
  "starts_with [] s = True"
| "starts_with (p # ps) [] = False"
| "starts_with (p # ps) (c # cs) = (p = c \<and> starts_with ps cs)"

fun has_substring :: "string \<Rightarrow> string \<Rightarrow> bool" where
  "has_substring p [] = starts_with p []"
| "has_substring p (c # cs) = (starts_with p (c # cs) \<or> has_substring p cs)"

definition spec_contains_literal_ci :: "string \<Rightarrow> string \<Rightarrow> bool" where
  "spec_contains_literal_ci category product =
     has_substring (map lower category) (map lower product)"

text \<open>
  \<^verbatim>\<open>re.search(r'-(.*?)$', s)\<close>: the search tries the start positions from left to right.
  After a hyphen the lazy group takes one character at a time, never a line feed, until
  \<^verbatim>\<open>$\<close> matches, which it does at the end of the string and before a line feed that ends
  the string.  The result is the text of group 1.
\<close>

fun lazy_group_to_end :: "string \<Rightarrow> string option" where
  "lazy_group_to_end [] = Some []"
| "lazy_group_to_end (c # cs) =
     (if c = newline then (if cs = [] then Some [] else None)
      else map_option ((#) c) (lazy_group_to_end cs))"

fun search_after_hyphen :: "string \<Rightarrow> string option" where
  "search_after_hyphen [] = None"
| "search_after_hyphen (c # cs) =
     (if c = hyphen
      then (case lazy_group_to_end cs of
              Some g \<Rightarrow> Some g
            | None \<Rightarrow> search_after_hyphen cs)
      else search_after_hyphen cs)"

section \<open>Timestamps and their display\<close>

text \<open>
  A pandas timestamp is a number of nanoseconds since 1970-01-01 00:00.  The calendar day
  of a timestamp is its quotient by the length of a day; \<open>civil_from_days\<close> is the
  proleptic Gregorian calendar, and \<open>strftime\<close> is \<^verbatim>\<open>strftime('%d-%m-%y')\<close>.
\<close>

type_synonym timestamp = int

definition ns_per_day :: int where
  "ns_per_day = 86400000000000"

definition day_of :: "timestamp \<Rightarrow> int" where
  "day_of t = t div ns_per_day"

definition civil_from_days :: "int \<Rightarrow> int \<times> int \<times> int" where
  "civil_from_days z0 =
     (let z = z0 + 719468;
          era = z div 146097;
          doe = z - era * 146097;
          yoe = (doe - doe div 1460 + doe div 36524 - doe div 146096) div 365;
          doy = doe - (365 * yoe + yoe div 4 - yoe div 100);
          mp = (5 * doy + 2) div 153;
          d = doy - (153 * mp + 2) div 5 + 1;
          m = (if mp < 10 then mp + 3 else mp - 9);
          y = yoe + era * 400 + (if m \<le> 2 then 1 else 0)
      in (y, m, d))"

definition digit :: "int \<Rightarrow> char" where
  "digit n = ''0123456789'' ! nat (n mod 10)"

definition two_digits :: "int \<Rightarrow> string" where
  "two_digits n = [digit (n div 10), digit n]"

definition format_day :: "int \<Rightarrow> string" where
  "format_day z =
     (case civil_from_days z of
        (y, m, d) \<Rightarrow> two_digits d @ ''-'' @ two_digits m @ ''-'' @ two_digits (y mod 100))"

definition strftime :: "timestamp \<Rightarrow> string" where
  "strftime t = format_day (day_of t)"

function date_range :: "timestamp \<Rightarrow> timestamp \<Rightarrow> timestamp list" where
  "date_range start end = (if start \<le> end then start # date_range (start + ns_per_day) end else [])"
  by pat_completeness auto
termination
  by (relation "measure (\<lambda>(s, e). nat (e - s + 1))") (auto simp: ns_per_day_def)

declare date_range.simps [simp del]


section \<open>Rows and frames\<close>

text \<open>
  A cell of column \<^verbatim>\<open>I. Liquidado\<close> is one of three things.  \<open>Amount x\<close> is a cell whose
  text, after \<^verbatim>\<open>astype(str).str.replace(',', '.')\<close>, \<^verbatim>\<open>pd.to_numeric\<close> parses; \<open>x\<close> is the
  number it yields, in the type of the converted column (\<^verbatim>\<open>int64\<close> when every cell is an
  integer, \<^verbatim>\<open>float64\<close> otherwise), which is the parameter \<open>'v\<close>.  \<open>Null\<close> is a missing cell:
  \<^verbatim>\<open>read_excel\<close> gives \<^verbatim>\<open>NaN\<close>, \<^verbatim>\<open>astype(str)\<close> turns it into the text \<^verbatim>\<open>nan\<close>, and the parser
  of \<^verbatim>\<open>pd.to_numeric\<close> rejects that text.  \<open>Text s\<close> is any other text that the parser
  rejects.  Column \<^verbatim>\<open>F. Actividad\<close> holds timestamps or \<^verbatim>\<open>NaT\<close>; the settlement identifier,
  \<^verbatim>\<open>Paciente\<close> and \<^verbatim>\<open>Producto\<close> are given by the text that \<^verbatim>\<open>str\<close> yields for the cell.
\<close>

datatype 'v amount_cell = Amount 'v | Null | Text string

record 'v row =
  Liquidacion :: string
  Paciente :: string
  F_Actividad :: "timestamp option"
  Producto :: string
  I_Liquidado :: "'v amount_cell"
  source_file :: string

text \<open>
  A frame has its column names and its rows.  A field of \<open>row\<close> is read only when its
  column is among the names.
\<close>

record 'v frame =
  columns :: "string list"
  rows :: "'v row list"

definition col_Liquidacion :: string where
  "col_Liquidacion = ''Liquidaci'' @ [CHR 0xF3] @ ''n''"

definition required_columns :: "string list" where
  "required_columns =
     [col_Liquidacion, ''Paciente'', ''F. Actividad'', ''Producto'', ''I. Liquidado'', ''source_file'']"

definition empty_frame :: "'v frame \<Rightarrow> bool" where
  "empty_frame df = (rows df = [] \<or> columns df = [])"

section \<open>find_missing_dates\<close>

text \<open>\<^verbatim>\<open>Series.unique()\<close> keeps the first occurrence of every value, in order.\<close>

definition unique :: "'a list \<Rightarrow> 'a list" where
  "unique xs = rev (remdups (rev xs))"

fun notna :: "'a option list \<Rightarrow> 'a list" where
  "notna [] = []"
| "notna (None # xs) = notna xs"
| "notna (Some x # xs) = x # notna xs"

definition present_dates :: "'v row list \<Rightarrow> timestamp list" where
  "present_dates df_patient =
     notna (unique (map F_Actividad (filter (\<lambda>r. contains_category (Producto r)) df_patient)))"

definition find_missing_dates :: "'v row list \<Rightarrow> string list" where
  "find_missing_dates df_patient =
     (let ingreso_no_quir_df = filter (\<lambda>r. contains_category (Producto r)) df_patient
      in if ingreso_no_quir_df = [] then []
         else let present = notna (unique (map F_Actividad ingreso_no_quir_df))
              in if length present < 2 then []
                 else let start_date = Min (set present);
                          end_date = Max (set present);
                          continuous_range = date_range start_date end_date
                      in map strftime (filter (\<lambda>date. date \<notin> set present) continuous_range))"

section \<open>process_data: one patient\<close>

datatype py_error = ValueError

text \<open>
  With \<^verbatim>\<open>errors='ignore'\<close>, \<^verbatim>\<open>pd.to_numeric\<close> converts the column when every cell
  parses, and returns its argument, a column of texts, as soon as one cell does not.
  \<^verbatim>\<open>dropna\<close> removes the rows whose cell is missing from a converted column; in a column
  of texts no cell is missing.
\<close>

fun parses :: "'v amount_cell \<Rightarrow> bool" where
  "parses (Amount x) = True"
| "parses Null = False"
| "parses (Text s) = False"

definition is_numeric :: "'v row list \<Rightarrow> bool" where
  "is_numeric df = list_all (\<lambda>r. parses (I_Liquidado r)) df"

definition dropna :: "'v row list \<Rightarrow> 'v row list" where
  "dropna df = (if is_numeric df then filter (\<lambda>r. I_Liquidado r \<noteq> Null) df else df)"

text \<open>
  \<^verbatim>\<open>sort_values(by='F. Actividad')\<close> puts the rows with a date in ascending order and the
  rows without one after them, in the order they had.  The order of rows with equal dates
  is the stable one here; pandas leaves it open.
\<close>

definition sort_values :: "'v row list \<Rightarrow> 'v row list" where
  "sort_values df =
     sort_key (\<lambda>r. the (F_Actividad r)) (filter (\<lambda>r. F_Actividad r \<noteq> None) df)
     @ filter (\<lambda>r. F_Actividad r = None) df"

text \<open>The numbers of a converted column, in the order of the rows.\<close>

fun amounts :: "'v row list \<Rightarrow> 'v list" where
  "amounts [] = []"
| "amounts (r # rs) =
     (case I_Liquidado r of Amount x \<Rightarrow> x # amounts rs | Null \<Rightarrow> amounts rs | Text s \<Rightarrow> amounts rs)"

text \<open>
  \<^verbatim>\<open>Series.sum()\<close> on a converted column is the sum of numpy for the type of the column:
  it adds 64-bit floats with rounding, in an order fixed by the order of the rows, or
  64-bit integers with wrap-around.  It is the parameter \<open>series_sum\<close>, a function of the
  numbers in row order.  On a column of texts \<^verbatim>\<open>sum()\<close> concatenates them, and the format
  \<^verbatim>\<open>:,.2f\<close> of the next line raises \<^verbatim>\<open>ValueError\<close> on the resulting text.
\<close>

definition column_sum :: "('v list \<Rightarrow> 'v) \<Rightarrow> 'v row list \<Rightarrow> py_error + 'v" where
  "column_sum series_sum df =
     (if is_numeric df then Inr (series_sum (amounts df)) else Inl ValueError)"

definition compute_total :: "('v list \<Rightarrow> 'v) \<Rightarrow> 'v row list \<Rightarrow> py_error + 'v" where
  "compute_total series_sum patient_data =
     column_sum series_sum (sort_values (dropna patient_data))"

section \<open>process_data: one modality\<close>

datatype reason = unusual_payment | multi_source

text \<open>
  \<^verbatim>\<open>groupby('F. Actividad')\<close> has one group for every date, in ascending order.  The sum of
  a group is the grouped sum of pandas for the type of the column, the parameter
  \<open>group_sum\<close>, a function of the numbers of the group in row order.
\<close>

definition group_dates :: "'v row list \<Rightarrow> timestamp list" where
  "group_dates df = sort (remdups (notna (map F_Actividad df)))"

definition on_date :: "timestamp \<Rightarrow> 'v row list \<Rightarrow> 'v row list" where
  "on_date d df = filter (\<lambda>r. F_Actividad r = Some d) df"

definition money_per_day :: "('v list \<Rightarrow> 'v) \<Rightarrow> 'v row list \<Rightarrow> (timestamp \<times> 'v) list" where
  "money_per_day group_sum df =
     map (\<lambda>d. (d, group_sum (amounts (on_date d df)))) (group_dates df)"

text \<open>
  \<^verbatim>\<open>value_counts()\<close> counts every distinct value and sorts by descending count; values
  with equal counts stay in the order of their first occurrence (the order among them is
  left open by pandas).  \<^verbatim>\<open>idxmax()\<close> is the first label with the largest count.
\<close>

definition value_counts :: "'v list \<Rightarrow> ('v \<times> nat) list" where
  "value_counts vs =
     rev (sort_key snd (rev (map (\<lambda>v. (v, count_list vs v)) (unique vs))))"

definition idxmax :: "('v \<times> nat) list \<Rightarrow> 'v option" where
  "idxmax vc =
     (case filter (\<lambda>p. snd p = Max (set (map snd vc))) vc of
        [] \<Rightarrow> None
      | p # ps \<Rightarrow> Some (fst p))"

definition most_common_value :: "(timestamp \<times> 'v) list \<Rightarrow> 'v option" where
  "most_common_value mpd =
     (if mpd = [] then None
      else let vc = value_counts (map snd mpd)
           in if vc = [] then None else idxmax vc)"

definition weird_dates_payments :: "(timestamp \<times> 'v) list \<Rightarrow> (timestamp \<times> 'v) list" where
  "weird_dates_payments mpd =
     (case most_common_value mpd of
        None \<Rightarrow> []
      | Some v \<Rightarrow> filter (\<lambda>p. snd p \<noteq> v) mpd)"

definition nunique_files :: "'v row list \<Rightarrow> nat" where
  "nunique_files df = length (remdups (map source_file df))"

definition cross_file_dates :: "'v row list \<Rightarrow> (timestamp \<times> nat) list" where
  "cross_file_dates df =
     filter (\<lambda>p. snd p > 1) (map (\<lambda>d. (d, nunique_files (on_date d df))) (group_dates df))"

definition series_get :: "('k \<times> 'x) list \<Rightarrow> 'k \<Rightarrow> 'x \<Rightarrow> 'x" where
  "series_get s k dflt = (case map_of s k of None \<Rightarrow> dflt | Some v \<Rightarrow> v)"

text \<open>
  The lines written under the heading of unusual payments and cross-file dates: one for
  every date of the union of the two indices, in ascending order, with the money of the
  day (\<open>None\<close> stands for the default \<^verbatim>\<open>'N/A'\<close> of \<^verbatim>\<open>money_per_day.get\<close>) and the tag that
  the line ends with.
\<close>

definition weird_dates ::
  "('v list \<Rightarrow> 'v) \<Rightarrow> 'v row list \<Rightarrow> (timestamp \<times> 'v option \<times> reason) list" where
  "weird_dates group_sum modality_data =
     (let mpd = money_per_day group_sum modality_data;
          weird = weird_dates_payments mpd;
          cross = cross_file_dates modality_data;
          all_weird_dates_dt = sort (remdups (map fst weird @ map fst cross))
      in map (\<lambda>date_dt.
                (date_dt, map_of mpd date_dt,
                 if series_get cross date_dt 0 > 1 then multi_source else unusual_payment))
             all_weird_dates_dt)"

record 'v modality_report =
  modality :: string
  weird_lines :: "(timestamp \<times> 'v option \<times> reason) list"
  days_count :: nat
  dates_with_money :: "(string \<times> 'v) list"
  total_money_modality :: 'v

definition report_modality ::
  "('v list \<Rightarrow> 'v) \<Rightarrow> ('v list \<Rightarrow> 'v) \<Rightarrow> 'v row list \<Rightarrow> string \<Rightarrow> 'v modality_report" where
  "report_modality series_sum group_sum patient_data m =
     (let modality_data = sort_values (filter (\<lambda>r. Producto r = m) patient_data)
      in \<lparr> modality = m,
           weird_lines = weird_dates group_sum modality_data,
           days_count = length (remdups (notna (map F_Actividad modality_data))),
           dates_with_money =
             map (\<lambda>(d, money). (strftime d, money)) (money_per_day group_sum modality_data),
           total_money_modality = series_sum (amounts modality_data) \<rparr>)"

section \<open>process_data\<close>

record 'v patient_report =
  patient :: string
  total_money_patient :: 'v
  missing_days :: "string list"
  modalities :: "'v modality_report list"

definition report_patient ::
  "('v list \<Rightarrow> 'v) \<Rightarrow> ('v list \<Rightarrow> 'v) \<Rightarrow> 'v row list \<Rightarrow> string
     \<Rightarrow> py_error + 'v patient_report" where
  "report_patient series_sum group_sum df_filtered p =
     (let patient_data = sort_values (dropna (filter (\<lambda>r. Paciente r = p) df_filtered))
      in case column_sum series_sum patient_data of
           Inl e \<Rightarrow> Inl e
         | Inr money \<Rightarrow>
             Inr \<lparr> patient = p,
                   total_money_patient = money,
                   missing_days = find_missing_dates patient_data,
                   modalities = map (report_modality series_sum group_sum patient_data)
                                    (unique (map Producto patient_data)) \<rparr>)"

text \<open>
  The loop over the patients: an exception ends it, and the reports written before it
  stay on the page.
\<close>

fun report_patients ::
  "('v list \<Rightarrow> 'v) \<Rightarrow> ('v list \<Rightarrow> 'v) \<Rightarrow> 'v row list \<Rightarrow> string list
     \<Rightarrow> 'v patient_report list \<times> py_error option" where
  "report_patients series_sum group_sum df_filtered [] = ([], None)"
| "report_patients series_sum group_sum df_filtered (p # ps) =
     (case report_patient series_sum group_sum df_filtered p of
        Inl e \<Rightarrow> ([], Some e)
      | Inr rep \<Rightarrow>
          (case report_patients series_sum group_sum df_filtered ps of
             (reps, e) \<Rightarrow> (rep # reps, e)))"

datatype 'v outcome =
    Warning_empty_sheet
  | Error_missing_columns "string set"
  | Warning_no_data
  | Reports "'v patient_report list" "py_error option"

text \<open>
  The filter on the person under control searches the settlement identifier for
  \<^verbatim>\<open>str(person_under_control)\<close> as a regular expression.  The search of the \<^verbatim>\<open>re\<close>
  module for an arbitrary pattern is the parameter \<open>contains\<close> (pattern first).
\<close>

definition py_str :: "string option \<Rightarrow> string" where
  "py_str x = (case x of None \<Rightarrow> ''None'' | Some s \<Rightarrow> s)"

definition process_data ::
  "(string \<Rightarrow> string \<Rightarrow> bool) \<Rightarrow> ('v list \<Rightarrow> 'v) \<Rightarrow> ('v list \<Rightarrow> 'v) \<Rightarrow> 'v frame
     \<Rightarrow> string option \<Rightarrow> 'v outcome" where
  "process_data contains series_sum group_sum df person_under_control =
     (if empty_frame df then Warning_empty_sheet
      else if \<not> list_all (\<lambda>col. col \<in> set (columns df)) required_columns
      then Error_missing_columns (set required_columns - set (columns df))
      else let df_filtered =
                 filter (\<lambda>r. contains (py_str person_under_control) (Liquidacion r)) (rows df)
           in if df_filtered = [] then Warning_no_data
              else case report_patients series_sum group_sum df_filtered
                          (unique (map Paciente df_filtered)) of
                     (reps, e) \<Rightarrow> Reports reps e)"

section \<open>main: the person under control\<close>

definition person_under_control :: "'v frame \<Rightarrow> string option" where
  "person_under_control combined_df =
     (if col_Liquidacion \<in> set (columns combined_df) \<and> rows combined_df \<noteq> []
      then map_option strip (search_after_hyphen (Liquidacion (hd (rows combined_df))))
      else None)"

section \<open>The sums of the two column types\<close>

text \<open>
  A column of 64-bit integers: \<open>wrap64\<close> is the two's complement wrap-around, and both the
  sum of the column and the sum of a group add with it, one number after the other.
\<close>

definition wrap64 :: "int \<Rightarrow> int" where
  "wrap64 n = (n + 2 ^ 63) mod 2 ^ 64 - 2 ^ 63"

definition int64_sum :: "int list \<Rightarrow> int" where
  "int64_sum xs = foldl (\<lambda>acc x. wrap64 (acc + x)) 0 xs"

text \<open>
  A column of 64-bit floats.  A finite float is the rational number it denotes.
  \<open>round_float64 q\<close> is the float nearest to \<open>q\<close>, the one with the even significand when
  two are equally near, for \<open>q\<close> in the range of the normal floats: with
  \<open>2 ^ e \<le> \<bar>q\<bar> < 2 ^ (e + 1)\<close> it is a multiple of \<open>2 ^ (e - 52)\<close>.  It is what reading a
  decimal text and what an addition return.  numpy sums a column of fewer than eight
  floats one after the other from the first row on, which is \<open>float64_sum\<close>.
\<close>

definition pow2 :: "int \<Rightarrow> rat" where
  "pow2 k = (if 0 \<le> k then 2 ^ nat k else 1 / 2 ^ nat (- k))"

definition exponent2 :: "rat \<Rightarrow> int" where
  "exponent2 q =
     (case quotient_of \<bar>q\<bar> of
        (a, b) \<Rightarrow> let k = bitlen a - bitlen b in if pow2 k \<le> \<bar>q\<bar> then k else k - 1)"

definition round_half_even :: "rat \<Rightarrow> int" where
  "round_half_even m =
     (let f = \<lfloor>m\<rfloor>; r = m - of_int f
      in if r < 1 / 2 then f else if 1 / 2 < r then f + 1 else if even f then f else f + 1)"

definition round_float64 :: "rat \<Rightarrow> rat" where
  "round_float64 q =
     (if q = 0 then 0
      else let e = exponent2 q - 52 in of_int (round_half_even (q / pow2 e)) * pow2 e)"

definition float64_add :: "rat \<Rightarrow> rat \<Rightarrow> rat" where
  "float64_add a b = round_float64 (a + b)"

definition float64_sum :: "rat list \<Rightarrow> rat" where
  "float64_sum xs = foldl float64_add 0 xs"

section \<open>Readings of the specification and example inputs\<close>

text \<open>The specification's reading of the extraction: the text after the last hyphen.\<close>

definition spec_after_last_hyphen :: "string \<Rightarrow> string" where
  "spec_after_last_hyphen s = rev (takeWhile (\<lambda>c. c \<noteq> hyphen) (rev s))"

text \<open>A row with an integer amount, and the frame of that row.\<close>

definition example_row :: "int row" where
  "example_row =
     \<lparr> Liquidacion = ''A-B-Doe'', Paciente = ''P1'', F_Actividad = Some (19723 * ns_per_day),
       Producto = ''INGRESO NO QUIR. MEDICO'', I_Liquidado = Amount 100,
       source_file = ''a.xlsx'' \<rparr>"

definition example_frame :: "int frame" where
  "example_frame = \<lparr> columns = required_columns, rows = [example_row] \<rparr>"

text \<open>Inputs for the properties below.\<close>

definition wildcard_row :: "timestamp \<Rightarrow> int row" where
  "wildcard_row t =
     \<lparr> Liquidacion = ''A-B-Doe'', Paciente = ''P1'', F_Actividad = Some t,
       Producto = ''INGRESO NO QUIRURGICO'', I_Liquidado = Amount 100,
       source_file = ''a.xlsx'' \<rparr>"

definition unparseable_rows :: "int row list" where
  "unparseable_rows =
     [example_row, example_row \<lparr> I_Liquidado := Text ''abc'' \<rparr>]"

definition empty_sheet_frame :: "int frame" where
  "empty_sheet_frame = \<lparr> columns = [''source_file''], rows = [] \<rparr>"

definition headless_frame :: "int frame" where
  "headless_frame = \<lparr> columns = [''source_file''], rows = [example_row] \<rparr>"






text \<open>
  Category-matching rows of one patient in a column of floats; an amount is the float
  read from the given decimal.  Three rows without a date in two orders, and three rows
  with different dates in two orders.
\<close>

definition float_row :: "timestamp option \<Rightarrow> rat amount_cell \<Rightarrow> rat row" where
  "float_row d a =
     \<lparr> Liquidacion = ''A-B-Doe'', Paciente = ''P1'', F_Actividad = d,
       Producto = ''INGRESO NO QUIR. MEDICO'', I_Liquidado = a, source_file = ''a.xlsx'' \<rparr>"





text \<open>
  The ledger of one patient with the amount 100 on 2024-01-01 and 2024-01-03 and a row
  without an amount on 2024-01-02, all of the category.
\<close>

definition null_between_rows :: "rat row list" where
  "null_between_rows =
     [float_row (Some (19723 * ns_per_day)) (Amount 100),
      float_row (Some (19724 * ns_per_day)) Null,
      float_row (Some (19725 * ns_per_day)) (Amount 100)]"

text \<open>
  A ledger of one modality in a column of floats: 0.1 and 0.2 on the first day, 0.3 on
  each of the next two.
\<close>

definition float_sum_rows :: "rat row list" where
  "float_sum_rows =
     [float_row (Some (19723 * ns_per_day)) (Amount (round_float64 (1 / 10))),
      float_row (Some (19723 * ns_per_day)) (Amount (round_float64 (2 / 10))),
      float_row (Some (19724 * ns_per_day)) (Amount (round_float64 (3 / 10))),
      float_row (Some (19725 * ns_per_day)) (Amount (round_float64 (3 / 10)))]"

text \<open>
  Notions for the properties of one modality: the money of a day, whether the rows of a
  day come from more than one source file, and the index of the lines written.  Then
  ledgers of one modality with integer amounts.
\<close>

definition day_money :: "('v list \<Rightarrow> 'v) \<Rightarrow> 'v row list \<Rightarrow> timestamp \<Rightarrow> 'v" where
  "day_money group_sum df d = group_sum (amounts (on_date d df))"

definition multi_file :: "'v row list \<Rightarrow> timestamp \<Rightarrow> bool" where
  "multi_file df d = (1 < nunique_files (on_date d df))"

definition all_weird_dates :: "('v list \<Rightarrow> 'v) \<Rightarrow> 'v row list \<Rightarrow> timestamp list" where
  "all_weird_dates group_sum df =
     sort (remdups (map fst (weird_dates_payments (money_per_day group_sum df))
                    @ map fst (cross_file_dates df)))"

definition modality_row :: "timestamp \<Rightarrow> int \<Rightarrow> string \<Rightarrow> int row" where
  "modality_row d money file =
     example_row \<lparr> F_Actividad := Some d, I_Liquidado := Amount money, source_file := file \<rparr>"

definition one_differs_rows :: "int row list" where
  "one_differs_rows =
     [modality_row (19723 * ns_per_day) 100 ''a.xlsx'',
      modality_row (19724 * ns_per_day) 50 ''a.xlsx'',
      modality_row (19725 * ns_per_day) 100 ''a.xlsx'']"

definition all_equal_rows :: "int row list" where
  "all_equal_rows =
     [modality_row (19723 * ns_per_day) 100 ''a.xlsx'',
      modality_row (19724 * ns_per_day) 100 ''a.xlsx'',
      modality_row (19725 * ns_per_day) 100 ''a.xlsx'']"

definition two_days_equal_rows :: "int row list" where
  "two_days_equal_rows =
     [modality_row (19723 * ns_per_day) 100 ''a.xlsx'',
      modality_row (19724 * ns_per_day) 100 ''a.xlsx'']"

definition two_days_changed_rows :: "int row list" where
  "two_days_changed_rows =
     [modality_row (19723 * ns_per_day) 50 ''a.xlsx'',
      modality_row (19724 * ns_per_day) 100 ''a.xlsx'']"



section \<open>Properties of the person under control\<close>


lemma lazy_group_no_newline: "newline \<notin> set s \<Longrightarrow> lazy_group_to_end s = Some s"
  by (induction s) auto

lemma search_no_hyphen: "hyphen \<notin> set s \<Longrightarrow> search_after_hyphen s = None"
  by (induction s) auto

lemma search_first_hyphen:
  "newline \<notin> set s \<Longrightarrow> hyphen \<in> set s \<Longrightarrow>
   search_after_hyphen s = Some (tl (dropWhile (\<lambda>c. c \<noteq> hyphen) s))"
  by (induction s) (auto simp: lazy_group_no_newline)

text \<open>
  Claim C1, as the code has it.  When the frame has the settlement column and a first row,
  and \<open>s\<close> is the text of its first settlement identifier: without a hyphen in \<open>s\<close> there
  is no match and the person is unknown; with a hyphen, and no line feed in \<open>s\<close>, the
  person is everything after the \<^emph>\<open>first\<close> hyphen, stripped.
\<close>

theorem person_under_control_first_hyphen:
  assumes "col_Liquidacion \<in> set (columns df)" and "rows df \<noteq> []"
    and "s = Liquidacion (hd (rows df))"
  shows "(hyphen \<notin> set s \<longrightarrow> person_under_control df = None) \<and>
         (hyphen \<in> set s \<and> newline \<notin> set s \<longrightarrow>
            person_under_control df = Some (strip (tl (dropWhile (\<lambda>c. c \<noteq> hyphen) s))))"
  using assms by (simp add: person_under_control_def search_no_hyphen search_first_hyphen)

theorem person_under_control_first_hyphen_witness:
  "col_Liquidacion \<in> set (columns example_frame) \<and> rows example_frame \<noteq> [] \<and>
   hyphen \<in> set ''A-B-Doe'' \<and> newline \<notin> set ''A-B-Doe'' \<and>
   person_under_control example_frame = Some ''B-Doe''"
proof -
  have h1: "col_Liquidacion \<in> set (columns example_frame)" by code_simp
  have h2: "rows example_frame \<noteq> []" by code_simp
  have h3: "''A-B-Doe'' = Liquidacion (hd (rows example_frame))" by code_simp
  have h4: "hyphen \<in> set ''A-B-Doe'' \<and> newline \<notin> set ''A-B-Doe''" by code_simp
  have e: "strip (tl (dropWhile (\<lambda>c. c \<noteq> hyphen) ''A-B-Doe'')) = ''B-Doe''" by code_simp
  from person_under_control_first_hyphen [OF h1 h2 h3] h4
  have "person_under_control example_frame =
        Some (strip (tl (dropWhile (\<lambda>c. c \<noteq> hyphen) ''A-B-Doe'')))" by blast
  with e h1 h2 h4 show ?thesis by (simp only: simp_thms)
qed

text \<open>
  Claim C1 as the specification words it fails: the first identifier \<^verbatim>\<open>A-B-Doe\<close> has a
  hyphen, the text after its last hyphen is \<^verbatim>\<open>Doe\<close>, and the program extracts
  \<^verbatim>\<open>B-Doe\<close>.
\<close>

theorem person_under_control_last_hyphen_counterexample:
  "hyphen \<in> set (Liquidacion (hd (rows example_frame))) \<and>
   strip (spec_after_last_hyphen (Liquidacion (hd (rows example_frame)))) = ''Doe'' \<and>
   person_under_control example_frame = Some ''B-Doe''"
  by code_simp


section \<open>Properties of the category filter\<close>

lemma starts_with_match_at:
  "starts_with (map lower (ps @ [q])) (map lower s) \<Longrightarrow> lower q \<noteq> lower newline \<Longrightarrow>
   match_at (map Lit ps @ [Dot]) s"
proof (induction ps arbitrary: s)
  case Nil
  then show ?case by (cases s) auto
next
  case (Cons p ps)
  then show ?case by (cases s) auto
qed

lemma starts_with_Nil_iff [simp]: "starts_with p [] = (p = [])"
  by (cases p) auto

lemma has_substring_re_search:
  "has_substring (map lower (ps @ [q])) (map lower s) \<Longrightarrow> lower q \<noteq> lower newline \<Longrightarrow>
   re_search (map Lit ps @ [Dot]) s"
  by (induction s) (auto dest: starts_with_match_at [where s = "_ # _", simplified])

text \<open>
  One half of claim C4 holds: a product that contains the literal category, letters
  compared without case, is selected.
\<close>

lemma literal_category_selected:
  "spec_contains_literal_ci ''INGRESO NO QUIR.'' product \<Longrightarrow> contains_category product"
proof -
  assume a: "spec_contains_literal_ci ''INGRESO NO QUIR.'' product"
  have ne: "lower CHR ''.'' \<noteq> lower newline" by code_simp
  have "''INGRESO NO QUIR.'' = ''INGRESO NO QUIR'' @ [CHR ''.'']" by simp
  with a have "has_substring (map lower (''INGRESO NO QUIR'' @ [CHR ''.''])) (map lower product)"
    unfolding spec_contains_literal_ci_def by metis
  from has_substring_re_search [OF this ne] show ?thesis
    by (simp only: contains_category_def category_pattern_def)
qed

text \<open>
  Claim C4, that a record is selected if and only if its product contains the literal
  \<^verbatim>\<open>INGRESO NO QUIR.\<close> without regard to case, fails in the other direction: the final dot
  of the pattern matches any character, so \<^verbatim>\<open>INGRESO NO QUIRURGICO\<close> is selected although
  it does not contain the literal, and two such records two days apart yield a gap date.
\<close>

theorem contains_category_wildcard_dot:
  "contains_category ''INGRESO NO QUIRURGICO'' \<and>
   \<not> spec_contains_literal_ci ''INGRESO NO QUIR.'' ''INGRESO NO QUIRURGICO'' \<and>
   find_missing_dates [wildcard_row (19723 * ns_per_day), wildcard_row (19725 * ns_per_day)]
     = [''02-01-24'']"
  by code_simp




section \<open>Properties of the total\<close>

lemma set_sort_values: "set (sort_values df) = set df"
  by (auto simp: sort_values_def)

lemma mset_sort_values: "mset (sort_values df) = mset df"
proof -
  have "mset (filter (\<lambda>r. F_Actividad r \<noteq> None) df) + mset (filter (\<lambda>r. F_Actividad r = None) df) = mset df"
    by (induction df) auto
  then show ?thesis by (simp add: sort_values_def)
qed

lemma is_numeric_set: "is_numeric df = (\<forall>r\<in>set df. parses (I_Liquidado r))"
  by (simp add: is_numeric_def list_all_iff)

text \<open>
  \<^verbatim>\<open>dropna\<close> never removes a row: a column that was converted has no missing cell, and a
  column that was not is a column of texts.
\<close>

lemma dropna_id: "dropna df = df"
proof (cases "is_numeric df")
  case True
  have "I_Liquidado r \<noteq> Null" if "r \<in> set df" for r
  proof
    assume "I_Liquidado r = Null"
    moreover from True that have "parses (I_Liquidado r)" by (simp add: is_numeric_set)
    ultimately show False by simp
  qed
  then have "filter (\<lambda>r. I_Liquidado r \<noteq> Null) df = df" by (simp add: filter_id_conv)
  with True show ?thesis by (simp add: dropna_def)
next
  case False
  then show ?thesis by (simp add: dropna_def)
qed

lemma is_numeric_sort_values: "is_numeric (sort_values df) = is_numeric df"
  by (simp add: is_numeric_set set_sort_values)

lemma compute_total_eq:
  "compute_total s df =
     (if is_numeric df then Inr (s (amounts (sort_values df))) else Inl ValueError)"
  by (simp add: compute_total_def column_sum_def dropna_id is_numeric_sort_values)

text \<open>
  When one amount of the patient is missing or does not parse, the total is never shown.
\<close>

lemma compute_total_unparseable:
  "r \<in> set df \<Longrightarrow> \<not> parses (I_Liquidado r) \<Longrightarrow> compute_total s df = Inl ValueError"
  by (auto simp: compute_total_eq is_numeric_set)

text \<open>
  Claim C7, that a record with an unparseable amount is left out of the total without an
  error, fails: with the amounts \<^verbatim>\<open>100\<close> and \<^verbatim>\<open>abc\<close> the program raises \<^verbatim>\<open>ValueError\<close>
  where the claim expects the total \<^verbatim>\<open>100\<close>, which is the total of the first row alone.
\<close>

theorem compute_total_unparseable_raises:
  "compute_total int64_sum unparseable_rows = Inl ValueError \<and>
   compute_total int64_sum [example_row] = Inr 100"
  by code_simp

lemma filter_single:
  "distinct xs \<Longrightarrow> d \<in> set xs \<Longrightarrow> (\<forall>e\<in>set xs. P e = (e = d)) \<Longrightarrow> filter P xs = [d]"
proof (induction xs)
  case Nil
  then show ?case by simp
next
  case (Cons a xs)
  show ?case
  proof (cases "a = d")
    case True
    with Cons.prems have "\<forall>e\<in>set xs. \<not> P e" by auto
    then have "filter P xs = []" by (simp add: filter_empty_conv)
    moreover from Cons.prems True have "P a" by simp
    ultimately show ?thesis using True by simp
  next
    case False
    with Cons.prems have "\<not> P a" by simp
    moreover from Cons.prems False have "filter P xs = [d]"
      by (intro Cons.IH) auto
    ultimately show ?thesis by simp
  qed
qed












section \<open>Properties of the column check\<close>

text \<open>
  Claim C9, as the code has it.  When a required column is missing, no patient is
  reported: a frame with at least one row and one column is answered with the error that
  names exactly the missing columns, and an empty frame with the warning of the empty
  sheet, which comes first.
\<close>

theorem missing_columns_abort:
  assumes "\<not> set required_columns \<subseteq> set (columns df)"
  shows "process_data contains s g df person =
           (if empty_frame df then Warning_empty_sheet
            else Error_missing_columns (set required_columns - set (columns df)))"
  using assms by (auto simp: process_data_def list_all_iff)

theorem missing_columns_abort_witness:
  "\<not> set required_columns \<subseteq> set (columns headless_frame) \<and> \<not> empty_frame headless_frame \<and>
   process_data (\<lambda>p t. True) int64_sum int64_sum headless_frame None
     = Error_missing_columns (set required_columns - {''source_file''})"
proof -
  have h: "\<not> set required_columns \<subseteq> set (columns headless_frame)" by code_simp
  have e: "\<not> empty_frame headless_frame" by code_simp
  have c: "set (columns headless_frame) = {''source_file''}" by code_simp
  from missing_columns_abort [OF h, of "\<lambda>p t. True" int64_sum int64_sum None] e c h show ?thesis
    by (simp only: if_False simp_thms)
qed

text \<open>
  Claim C9 as the specification words it fails on an empty sheet: five required columns
  are missing, and the message is the warning of the empty sheet, which names none.
\<close>

theorem empty_sheet_hides_missing_columns_counterexample:
  "\<not> set required_columns \<subseteq> set (columns empty_sheet_frame) \<and>
   process_data (\<lambda>p t. True) int64_sum int64_sum empty_sheet_frame None = Warning_empty_sheet"
  by code_simp


section \<open>Properties of find_missing_dates\<close>

lemma ns_per_day_pos: "0 < ns_per_day"
  by (simp add: ns_per_day_def)

lemma set_unique: "set (unique xs) = set xs"
  by (simp add: unique_def)

lemma distinct_unique: "distinct (unique xs)"
  by (simp add: unique_def)

lemma set_notna: "set (notna xs) = {x. Some x \<in> set xs}"
  by (induction xs rule: notna.induct) auto

lemma distinct_notna: "distinct xs \<Longrightarrow> distinct (notna xs)"
  by (induction xs rule: notna.induct) (auto simp: set_notna)

lemma distinct_present_dates: "distinct (present_dates df)"
  by (simp add: present_dates_def distinct_notna distinct_unique)

lemma set_present_dates:
  "set (present_dates df) =
     {t. \<exists>r\<in>set df. contains_category (Producto r) \<and> F_Actividad r = Some t}"
proof -
  have "set (present_dates df) =
          {t. Some t \<in> F_Actividad ` {r \<in> set df. contains_category (Producto r)}}"
    by (simp add: present_dates_def set_notna set_unique)
  also have "\<dots> = {t. \<exists>r\<in>set df. contains_category (Producto r) \<and> F_Actividad r = Some t}"
    by (auto simp: image_iff)
  finally show ?thesis .
qed












lemma mem_date_range:
  "s + int n * ns_per_day \<le> e \<Longrightarrow> s + int n * ns_per_day \<in> set (date_range s e)"
proof (induction n arbitrary: s)
  case 0
  then have "s \<le> e" by simp
  then show ?case by (subst date_range.simps) simp
next
  case (Suc n)
  have eq: "s + int (Suc n) * ns_per_day = (s + ns_per_day) + int n * ns_per_day"
    by (simp add: algebra_simps)
  with Suc.prems have "(s + ns_per_day) + int n * ns_per_day \<le> e" by simp
  then have "(s + ns_per_day) + int n * ns_per_day \<in> set (date_range (s + ns_per_day) e)"
    by (rule Suc.IH)
  moreover have "0 \<le> int (Suc n) * ns_per_day" using ns_per_day_pos by simp
  then have "s \<le> e" using Suc.prems by linarith
  ultimately show ?case by (subst date_range.simps) (simp only: eq if_True list.set insert_iff simp_thms)
qed









section \<open>Properties of the rows without an amount\<close>

text \<open>
  A row of the patient whose amount is missing or does not parse ends the report of the
  patient with \<^verbatim>\<open>ValueError\<close>, before the search for missing dates.
\<close>

lemma report_patient_raises:
  assumes "r \<in> set df_filtered" and "Paciente r = p" and "\<not> parses (I_Liquidado r)"
  shows "report_patient s g df_filtered p = Inl ValueError"
proof -
  define X where "X = filter (\<lambda>r. Paciente r = p) df_filtered"
  from assms(1,2) have "r \<in> set X" by (simp add: X_def)
  then have "compute_total s X = Inl ValueError" using assms(3) by (rule compute_total_unparseable)
  then have "column_sum s (sort_values (dropna X)) = Inl ValueError"
    by (simp only: compute_total_def)
  then show ?thesis
    unfolding report_patient_def Let_def X_def [symmetric] by simp
qed

text \<open>
  Claim C10, that the rows without an amount are dropped before the search for missing
  dates and their day is reported as missing, fails: a missing amount becomes the text
  \<^verbatim>\<open>nan\<close>, which does not parse, so the column stays a column of texts, \<^verbatim>\<open>dropna\<close> removes
  no row and the total raises \<^verbatim>\<open>ValueError\<close>.  With amounts on 2024-01-01 and 2024-01-03
  and a row without an amount on 2024-01-02 the report of the patient ends with the error,
  where the claim expects the search to run without that row and to report 02-01-24.
\<close>

theorem null_amount_raises:
  "report_patient float64_sum float64_sum null_between_rows ''P1'' = Inl ValueError \<and>
   dropna null_between_rows = null_between_rows \<and>
   find_missing_dates (filter (\<lambda>r. I_Liquidado r \<noteq> Null) null_between_rows) = [''02-01-24'']"
  by code_simp


section \<open>Properties of the unusual payments and cross-file dates\<close>

lemma money_per_day_eq: "money_per_day g df = map (\<lambda>d. (d, day_money g df d)) (group_dates df)"
  by (simp add: money_per_day_def day_money_def)

lemma cross_file_dates_eq:
  "cross_file_dates df =
     filter (\<lambda>p. 1 < snd p) (map (\<lambda>d. (d, nunique_files (on_date d df))) (group_dates df))"
  by (simp add: cross_file_dates_def)

lemma distinct_group_dates: "distinct (group_dates df)"
  by (simp add: group_dates_def)

lemma sorted_group_dates: "sorted (group_dates df)"
  by (simp add: group_dates_def)

lemma map_of_graph:
  "map_of (map (\<lambda>k. (k, f k)) ks) k = (if k \<in> set ks then Some (f k) else None)"
  by (induction ks) simp_all


lemma map_of_money:
  "d \<in> set (group_dates df) \<Longrightarrow> map_of (money_per_day g df) d = Some (day_money g df d)"
  by (simp add: money_per_day_eq map_of_graph)




lemma weird_dates_eq:
  "weird_dates g df =
     map (\<lambda>d. (d, map_of (money_per_day g df) d,
               if 1 < series_get (cross_file_dates df) d 0 then multi_source else unusual_payment))
       (all_weird_dates g df)"
  by (simp add: weird_dates_def all_weird_dates_def Let_def)








lemma set_value_counts: "set (value_counts vs) = (\<lambda>u. (u, count_list vs u)) ` set vs"
  by (simp add: value_counts_def set_unique)

lemma idxmax_strict:
  assumes v: "v \<in> set vs"
    and strict: "\<forall>u\<in>set vs. u \<noteq> v \<longrightarrow> count_list vs u < count_list vs v"
  shows "idxmax (value_counts vs) = Some v"
proof -
  define vc where "vc = value_counts vs"
  define c where "c = count_list vs v"
  have svc: "set vc = (\<lambda>u. (u, count_list vs u)) ` set vs"
    by (simp only: vc_def set_value_counts)
  have cnt: "set (map snd vc) = count_list vs ` set vs"
    by (simp add: svc image_image)
  have mx: "Max (set (map snd vc)) = c"
  proof (rule Max_eqI)
    show "finite (set (map snd vc))" by simp
    show "c \<in> set (map snd vc)" unfolding cnt c_def using v by (rule imageI)
    fix y assume "y \<in> set (map snd vc)"
    then obtain u where u: "u \<in> set vs" and y: "y = count_list vs u"
      unfolding cnt by blast
    show "y \<le> c"
    proof (cases "u = v")
      case True
      then show ?thesis by (simp add: y c_def)
    next
      case False
      with strict u have "count_list vs u < count_list vs v" by blast
      then show ?thesis by (simp add: y c_def)
    qed
  qed
  have only: "p = (v, c)" if "p \<in> set (filter (\<lambda>p. snd p = c) vc)" for p
  proof -
    from that have pin: "p \<in> set vc" and ps: "snd p = c" by simp_all
    from pin obtain u where u: "u \<in> set vs" and p: "p = (u, count_list vs u)"
      unfolding svc by blast
    have "u = v"
    proof (rule ccontr)
      assume "u \<noteq> v"
      with strict u have "count_list vs u < count_list vs v" by blast
      with ps p show False by (simp add: c_def)
    qed
    with p show ?thesis by (simp add: c_def)
  qed
  have "(v, c) \<in> set vc" unfolding svc c_def using v by (rule imageI)
  then have ne: "filter (\<lambda>p. snd p = c) vc \<noteq> []"
    by (simp add: filter_empty_conv) (metis snd_conv)
  then obtain p ps where f: "filter (\<lambda>p. snd p = c) vc = p # ps"
    by (cases "filter (\<lambda>p. snd p = c) vc") simp_all
  then have "p \<in> set (filter (\<lambda>p. snd p = c) vc)" by (simp only: list.set_intros)
  then have "p = (v, c)" by (rule only)
  with f have "filter (\<lambda>p. snd p = Max (set (map snd vc))) vc = (v, c) # ps"
    by (simp only: mx)
  then show ?thesis by (simp add: idxmax_def vc_def [symmetric])
qed

lemma most_common_value_strict:
  assumes "(d, v) \<in> set mpd"
    and "\<forall>u\<in>set (map snd mpd). u \<noteq> v \<longrightarrow>
           count_list (map snd mpd) u < count_list (map snd mpd) v"
  shows "most_common_value mpd = Some v"
proof -
  from assms(1) have ne: "mpd \<noteq> []" by auto
  from assms(1) have v: "v \<in> set (map snd mpd)" by (simp add: image_iff) (metis snd_conv)
  then have "(v, count_list (map snd mpd) v) \<in> set (value_counts (map snd mpd))"
    unfolding set_value_counts by (rule imageI)
  then have ne2: "value_counts (map snd mpd) \<noteq> []" by auto
  from idxmax_strict [OF v assms(2)] ne ne2 show ?thesis
    by (simp add: most_common_value_def Let_def)
qed

lemma count_list_map:
  "count_list (map f xs) x = length (filter (\<lambda>e. f e = x) xs)"
  by (induction xs) simp_all

lemma length_filter_two:
  assumes "distinct xs" and "a \<in> set xs" and "b \<in> set xs" and "a \<noteq> b" and "P a" and "P b"
  shows "2 \<le> length (filter P xs)"
proof -
  have "{a, b} \<subseteq> set (filter P xs)" using assms by simp
  then have "card {a, b} \<le> card (set (filter P xs))" by (intro card_mono) simp_all
  also have "\<dots> \<le> length (filter P xs)" by (rule card_length)
  finally show ?thesis using assms(4) by simp
qed

lemma no_cross_file_dates:
  "\<forall>d\<in>set (group_dates df). \<not> multi_file df d \<Longrightarrow> cross_file_dates df = []"
  by (simp add: cross_file_dates_eq filter_empty_conv multi_file_def)

lemma weird_dates_payments_strict:
  assumes "d \<in> set (group_dates df)"
    and "\<forall>u\<in>set (map (day_money g df) (group_dates df)). u \<noteq> v \<longrightarrow>
           count_list (map (day_money g df) (group_dates df)) u
             < count_list (map (day_money g df) (group_dates df)) v"
    and "day_money g df d = v"
  shows "weird_dates_payments (money_per_day g df) =
           map (\<lambda>e. (e, day_money g df e)) (filter (\<lambda>e. day_money g df e \<noteq> v) (group_dates df))"
proof -
  have sn: "map snd (money_per_day g df) = map (day_money g df) (group_dates df)"
    by (simp add: money_per_day_eq comp_def)
  have "(d, v) \<in> set (money_per_day g df)"
    using assms(1,3) by (auto simp: money_per_day_eq)
  then have "most_common_value (money_per_day g df) = Some v"
    using assms(2) unfolding sn [symmetric] by (rule most_common_value_strict)
  then show ?thesis
    by (simp add: weird_dates_payments_def money_per_day_eq filter_map comp_def)
qed


lemma weird_dates_all_equal:
  assumes eq: "\<forall>d\<in>set (group_dates df). \<forall>e\<in>set (group_dates df). day_money g df d = day_money g df e"
    and single: "\<forall>d\<in>set (group_dates df). \<not> multi_file df d"
  shows "weird_dates g df = []"
proof -
  have cross: "cross_file_dates df = []" using single by (rule no_cross_file_dates)
  have pay: "weird_dates_payments (money_per_day g df) = []"
  proof (cases "group_dates df")
    case Nil
    then show ?thesis
      by (simp add: weird_dates_payments_def most_common_value_def money_per_day_eq)
  next
    case (Cons d ds)
    then have d: "d \<in> set (group_dates df)" by simp
    define v where "v = day_money g df d"
    have dv: "day_money g df d = v" by (simp only: v_def)
    have all: "day_money g df e = v" if "e \<in> set (group_dates df)" for e
    proof -
      from eq d that have "day_money g df d = day_money g df e" by blast
      then show ?thesis by (simp only: v_def)
    qed
    have strict: "\<forall>u\<in>set (map (day_money g df) (group_dates df)). u \<noteq> v \<longrightarrow>
           count_list (map (day_money g df) (group_dates df)) u
             < count_list (map (day_money g df) (group_dates df)) v"
    proof (intro ballI impI)
      fix u assume "u \<in> set (map (day_money g df) (group_dates df))" and uv: "u \<noteq> v"
      then obtain e where "e \<in> set (group_dates df)" and "u = day_money g df e" by auto
      with all have "u = v" by simp
      with uv show "count_list (map (day_money g df) (group_dates df)) u
             < count_list (map (day_money g df) (group_dates df)) v" by (rule notE)
    qed
    have "filter (\<lambda>e. day_money g df e \<noteq> v) (group_dates df) = []"
      using all by (simp add: filter_empty_conv)
    with weird_dates_payments_strict [OF d strict dv] show ?thesis by simp
  qed
  show ?thesis by (simp add: weird_dates_eq all_weird_dates_def cross pay)
qed

lemma weird_dates_one_outlier:
  assumes single: "\<forall>e\<in>set (group_dates df). \<not> multi_file df e"
    and d: "d \<in> set (group_dates df)"
    and others: "\<forall>e\<in>set (group_dates df). e \<noteq> d \<longrightarrow> day_money g df e = v"
    and w: "day_money g df d \<noteq> v"
    and e1: "e1 \<in> set (group_dates df)" "e1 \<noteq> d"
    and e2: "e2 \<in> set (group_dates df)" "e2 \<noteq> d" "e2 \<noteq> e1"
  shows "weird_dates g df = [(d, Some (day_money g df d), unusual_payment)]"
proof -
  define G where "G = group_dates df"
  define f where "f = day_money g df"
  have dist: "distinct G" by (simp add: G_def distinct_group_dates)
  have dG: "d \<in> set G" using d by (simp add: G_def)
  have oth: "\<forall>e\<in>set G. e \<noteq> d \<longrightarrow> f e = v" using others by (simp add: G_def f_def)
  have fd: "f d \<noteq> v" using w by (simp add: f_def)
  have cross: "cross_file_dates df = []" using single by (rule no_cross_file_dates)
  have cv: "2 \<le> count_list (map f G) v"
    unfolding count_list_map
  proof (rule length_filter_two [OF dist])
    show "e1 \<in> set G" "e2 \<in> set G" using e1 e2 by (simp_all add: G_def)
    show "e1 \<noteq> e2" using e2 by simp
    show "f e1 = v" using oth e1 by (simp add: G_def)
    show "f e2 = v" using oth e2 by (simp add: G_def)
  qed
  have one: "filter (\<lambda>e. f e = f d) G = [d]"
  proof (rule filter_single [OF dist dG])
    show "\<forall>e\<in>set G. (f e = f d) = (e = d)" using oth fd by auto
  qed
  then have cw: "count_list (map f G) (f d) = 1" by (simp add: count_list_map)
  have strict: "\<forall>u\<in>set (map f G). u \<noteq> v \<longrightarrow> count_list (map f G) u < count_list (map f G) v"
  proof (intro ballI impI)
    fix u assume "u \<in> set (map f G)" and uv: "u \<noteq> v"
    then obtain e where e: "e \<in> set G" and u: "u = f e" by auto
    with oth uv have "e = d" by blast
    with u cw cv show "count_list (map f G) u < count_list (map f G) v" by simp
  qed
  have fe1: "f e1 = v" using oth e1 by (simp add: G_def)
  have "weird_dates_payments (money_per_day g df) =
          map (\<lambda>e. (e, f e)) (filter (\<lambda>e. f e \<noteq> v) G)"
    unfolding f_def G_def
  proof (rule weird_dates_payments_strict)
    show "e1 \<in> set (group_dates df)" by (rule e1(1))
    show "\<forall>u\<in>set (map (day_money g df) (group_dates df)). u \<noteq> v \<longrightarrow>
           count_list (map (day_money g df) (group_dates df)) u
             < count_list (map (day_money g df) (group_dates df)) v"
      using strict by (simp only: f_def G_def)
    show "day_money g df e1 = v" using fe1 by (simp only: f_def)
  qed
  moreover have "filter (\<lambda>e. f e \<noteq> v) G = [d]"
  proof (rule filter_single [OF dist dG])
    show "\<forall>e\<in>set G. (f e \<noteq> v) = (e = d)" using oth fd by auto
  qed
  ultimately have pay: "weird_dates_payments (money_per_day g df) = [(d, f d)]" by simp
  have aw: "all_weird_dates g df = [d]" by (simp add: all_weird_dates_def cross pay)
  have nm: "\<not> multi_file df d" using single d by blast
  have sg: "series_get (cross_file_dates df) d 0 = 0" by (simp add: cross series_get_def)
  have z: "\<not> (1::nat) < 0" by simp
  have "weird_dates g df =
          [(d, map_of (money_per_day g df) d,
            if 1 < series_get (cross_file_dates df) d 0 then multi_source else unusual_payment)]"
    by (simp only: weird_dates_eq aw list.map)
  then show ?thesis
    by (simp only: map_of_money [OF d] sg z if_False)
qed

text \<open>
  Claim C5, as the code has it.  When the money of all days is equal and no day has more
  than one source file, no line is written.  When no day has more than one source file,
  there are at least three days, every day but \<open>d\<close> has the money \<open>v\<close> and day \<open>d\<close> has
  another, the only line is that of \<open>d\<close>, tagged \<open>unusual_payment\<close>.  The money of a day is
  the sum that the program computes, for every way of summing a group.
\<close>

theorem weird_dates_one_differs:
  "((\<forall>d\<in>set (group_dates df). \<forall>e\<in>set (group_dates df). day_money g df d = day_money g df e) \<and>
    (\<forall>d\<in>set (group_dates df). \<not> multi_file df d)
      \<longrightarrow> weird_dates g df = []) \<and>
   ((\<forall>e\<in>set (group_dates df). \<not> multi_file df e) \<and>
    (\<forall>e\<in>set (group_dates df). e \<noteq> d \<longrightarrow> day_money g df e = v) \<and>
    d \<in> set (group_dates df) \<and> day_money g df d \<noteq> v \<and>
    3 \<le> length (group_dates df)
      \<longrightarrow> weird_dates g df = [(d, Some (day_money g df d), unusual_payment)])"
proof (intro conjI impI)
  assume "(\<forall>d\<in>set (group_dates df). \<forall>e\<in>set (group_dates df). day_money g df d = day_money g df e) \<and>
    (\<forall>d\<in>set (group_dates df). \<not> multi_file df d)"
  then show "weird_dates g df = []" by (intro weird_dates_all_equal) blast+
next
  assume a: "(\<forall>e\<in>set (group_dates df). \<not> multi_file df e) \<and>
    (\<forall>e\<in>set (group_dates df). e \<noteq> d \<longrightarrow> day_money g df e = v) \<and>
    d \<in> set (group_dates df) \<and> day_money g df d \<noteq> v \<and>
    3 \<le> length (group_dates df)"
  then have single: "\<forall>e\<in>set (group_dates df). \<not> multi_file df e"
    and others: "\<forall>e\<in>set (group_dates df). e \<noteq> d \<longrightarrow> day_money g df e = v"
    and d: "d \<in> set (group_dates df)"
    and w: "day_money g df d \<noteq> v"
    and three: "3 \<le> length (group_dates df)" by blast+
  define S where "S = set (group_dates df) - {d}"
  have "card (set (group_dates df)) = length (group_dates df)"
    using distinct_group_dates by (rule distinct_card)
  with three d have "2 \<le> card S" by (simp add: S_def)
  then have "\<not> card S \<le> Suc 0" by simp
  moreover have "finite S" by (simp add: S_def)
  ultimately have "\<not> (\<forall>a\<in>S. \<forall>b\<in>S. a = b)" by (simp add: card_le_Suc0_iff_eq)
  then obtain e1 e2 where "e1 \<in> S" "e2 \<in> S" "e1 \<noteq> e2" by blast
  then have e1: "e1 \<in> set (group_dates df)" "e1 \<noteq> d"
    and e2: "e2 \<in> set (group_dates df)" "e2 \<noteq> d" "e2 \<noteq> e1"
    by (auto simp: S_def)
  show "weird_dates g df = [(d, Some (day_money g df d), unusual_payment)]"
    by (rule weird_dates_one_outlier [OF single d others w e1 e2])
qed

theorem weird_dates_one_differs_witness:
  "weird_dates int64_sum all_equal_rows = [] \<and>
   day_money int64_sum one_differs_rows 1704067200000000000 = 100 \<and>
   day_money int64_sum one_differs_rows 1704153600000000000 = 50 \<and>
   day_money int64_sum one_differs_rows 1704240000000000000 = 100 \<and>
   weird_dates int64_sum one_differs_rows = [(1704153600000000000, Some 50, unusual_payment)]"
proof -
  have h1: "\<forall>d\<in>set (group_dates all_equal_rows). \<forall>e\<in>set (group_dates all_equal_rows).
              day_money int64_sum all_equal_rows d = day_money int64_sum all_equal_rows e"
    by code_simp
  have h2: "\<forall>d\<in>set (group_dates all_equal_rows). \<not> multi_file all_equal_rows d" by code_simp
  have G: "group_dates one_differs_rows =
             [1704067200000000000, 1704153600000000000, 1704240000000000000]" by code_simp
  have fA: "day_money int64_sum one_differs_rows 1704067200000000000 = 100" by code_simp
  have fB: "day_money int64_sum one_differs_rows 1704153600000000000 = 50" by code_simp
  have fC: "day_money int64_sum one_differs_rows 1704240000000000000 = 100" by code_simp
  have k1: "\<forall>e\<in>set (group_dates one_differs_rows). \<not> multi_file one_differs_rows e"
    by code_simp
  have k2: "\<forall>e\<in>set (group_dates one_differs_rows). e \<noteq> 1704153600000000000 \<longrightarrow>
              day_money int64_sum one_differs_rows e = 100"
    unfolding G by (simp add: fA fC)
  have k3: "1704153600000000000 \<in> set (group_dates one_differs_rows)" unfolding G by simp
  have k4: "day_money int64_sum one_differs_rows 1704153600000000000 \<noteq> 100" by (simp add: fB)
  have k5: "3 \<le> length (group_dates one_differs_rows)" unfolding G by simp
  from weird_dates_one_differs [of all_equal_rows int64_sum] h1 h2
  have r1: "weird_dates int64_sum all_equal_rows = []" by blast
  from weird_dates_one_differs [of one_differs_rows int64_sum 1704153600000000000 100]
    k1 k2 k3 k4 k5
  have "weird_dates int64_sum one_differs_rows =
          [(1704153600000000000,
            Some (day_money int64_sum one_differs_rows 1704153600000000000), unusual_payment)]"
    by blast
  then have r2: "weird_dates int64_sum one_differs_rows
                   = [(1704153600000000000, Some 50, unusual_payment)]"
    by (simp only: fB)
  from r1 fA fB fC r2 show ?thesis by (simp only: simp_thms)
qed

text \<open>
  Claim C5 as the specification words it fails with two days.  The ledger with 100 on
  2024-01-01 and on 2024-01-02, from one file, has no line.  When the money of the first
  day is changed to 50, exactly one day differs from the others, and the one line
  written is that of the second day, whose money was not changed: each of the two values
  occurs once, and the most common value is taken to be the first, 50.
\<close>

theorem weird_dates_two_days_counterexample:
  "weird_dates int64_sum two_days_equal_rows = [] \<and>
   money_per_day int64_sum two_days_equal_rows
     = [(19723 * ns_per_day, 100), (19724 * ns_per_day, 100)] \<and>
   money_per_day int64_sum two_days_changed_rows
     = [(19723 * ns_per_day, 50), (19724 * ns_per_day, 100)] \<and>
   weird_dates int64_sum two_days_changed_rows
     = [(19724 * ns_per_day, Some 100, unusual_payment)]"
  by code_simp

text \<open>
  In a column of floats the sums of the days are rounded: with 0.1 and 0.2 on the first
  day and 0.3 on the next two, the money of the first day is not that of the others, and
  its line is written.  (The grouped sum of pandas carries a compensation term, which is
  zero for a group of one or two numbers, so the sum of such a group is \<open>float64_sum\<close>.)
\<close>

lemma weird_dates_float_sum:
  "day_money float64_sum float_sum_rows (19723 * ns_per_day)
     \<noteq> day_money float64_sum float_sum_rows (19724 * ns_per_day) \<and>
   map fst (weird_dates float64_sum float_sum_rows) = [19723 * ns_per_day] \<and>
   map (snd \<circ> snd) (weird_dates float64_sum float_sum_rows) = [unusual_payment]"
  by code_simp


end
